theory Spec2Isabelle
  imports Main "HOL-Library.Char_ord"
begin

section \<open>Server: phone normalisation and customer lookup (server/main.go)\<close>

subsection \<open>Data\<close>

text \<open>
  Go's \<^verbatim>\<open>sql.NullString\<close>: the text of a nullable column and whether it is set.
\<close>

record NullString =
  String :: string
  Valid :: bool

text \<open>
  A row of the table \<^verbatim>\<open>customers\<close> of server/schema.sql (the struct generated from
  it is read by the handler through \<^verbatim>\<open>c.Phone\<close>, \<^verbatim>\<open>c.FirstName\<close>, \<^verbatim>\<open>c.LastName\<close>, and
  by the client through the JSON keys used as field names here). The column \<^verbatim>\<open>id\<close>
  is called \<open>customer_id\<close>; \<^verbatim>\<open>created_at\<close> is a timestamp, here a number of seconds.
\<close>

record Customer =
  customer_id :: int
  company_id :: int
  first_name :: string
  last_name :: string
  email :: NullString
  phone :: NullString
  medical_aid_provider :: NullString
  medical_aid_number :: NullString
  medical_plan :: NullString
  created_at :: int

subsection \<open>normalizePhoneNumber\<close>

text \<open>
  \<^verbatim>\<open>for _, char := range phone { if char >= '0' && char <= '9' || char == '+'
  { normalized += string(char) } }\<close>.
  The loop appends each kept character to the accumulator \<open>normalized\<close>. Go ranges over
  runes; every byte of a multi-byte UTF-8 sequence (and the replacement rune of an invalid
  byte) is outside \<^verbatim>\<open>'0'..'9'\<close> and \<^verbatim>\<open>'+'\<close>, so ranging over bytes keeps the same characters.
\<close>

fun normalize_loop :: "string \<Rightarrow> string \<Rightarrow> string" where
  "normalize_loop normalized [] = normalized"
| "normalize_loop normalized (char # rest) =
     normalize_loop
       (if (CHR ''0'' \<le> char \<and> char \<le> CHR ''9'') \<or> char = CHR ''+''
        then normalized @ [char] else normalized)
       rest"

definition normalizePhoneNumber :: "string \<Rightarrow> string" where
  "normalizePhoneNumber phone_q = normalize_loop [] phone_q"

text \<open>
  The client's function of the same name (src/main.js): the same character filter
  (\<^verbatim>\<open>number.replace(/[^\d+]/g, '')\<close>), then the South African prefix rules.
\<close>

definition starts_with :: "string \<Rightarrow> string \<Rightarrow> bool" where
  "starts_with s p = (take (length p) s = p)"

definition normalizePhoneNumber_js :: "string \<Rightarrow> string" where
  "normalizePhoneNumber_js number =
     (let normalized = filter (\<lambda>c. (CHR ''0'' \<le> c \<and> c \<le> CHR ''9'') \<or> c = CHR ''+'') number;
          normalized = (if starts_with normalized ''0''
                        then ''+27'' @ drop 1 normalized else normalized);
          normalized = (if starts_with normalized ''27'' \<and> \<not> starts_with normalized ''+''
                        then ''+'' @ normalized else normalized)
      in normalized)"

subsection \<open>The queries\<close>

text \<open>
  The result of a query: the Go pair \<^verbatim>\<open>(value, err)\<close>, with \<^verbatim>\<open>sql.ErrNoRows\<close> told
  apart from every other error, as the handler does.
\<close>

datatype 'a query_result = Row 'a | ErrNoRows | ErrOther

record Queries =
  GetCustomerByPhone :: "NullString \<Rightarrow> Customer query_result"
  GetAllCustomers :: "Customer list query_result"

text \<open>
  The two queries as server/schema.sql writes them, over the rows of the table in the
  order the engine scans them:
  \<^verbatim>\<open>SELECT * FROM customers WHERE phone = ?\<close> (one row: the first the scan meets; a
  \<^verbatim>\<open>NULL\<close> on either side is equal to nothing) and
  \<^verbatim>\<open>SELECT * FROM customers ORDER BY created_at DESC\<close> (SQL leaves the order of
  rows of equal \<^verbatim>\<open>created_at\<close> to the engine; here they stay in scan order).
\<close>

definition sql_GetCustomerByPhone :: "Customer list \<Rightarrow> NullString \<Rightarrow> Customer query_result" where
  "sql_GetCustomerByPhone tbl arg =
     (case filter (\<lambda>c. Valid (phone c) \<and> Valid arg \<and> String (phone c) = String arg) tbl of
        [] \<Rightarrow> ErrNoRows
      | c # _ \<Rightarrow> Row c)"

definition sql_GetAllCustomers :: "Customer list \<Rightarrow> Customer list query_result" where
  "sql_GetAllCustomers tbl = Row (sort_key (\<lambda>c. - created_at c) tbl)"

definition db_queries :: "Customer list \<Rightarrow> Queries" where
  "db_queries tbl =
     \<lparr>GetCustomerByPhone = sql_GetCustomerByPhone tbl,
      GetAllCustomers = sql_GetAllCustomers tbl\<rparr>"

subsection \<open>getCustomerByPhone\<close>

text \<open>
  What the handler writes: \<^verbatim>\<open>respondError(w, status, message)\<close>, or a
  \<^verbatim>\<open>CustomerResponse{Success, Customer}\<close>.
\<close>

datatype response =
    RespondError nat string
  | CustomerResponse bool "Customer option"

text \<open>
  The \<^verbatim>\<open>for _, c := range customers\<close> loop with its \<^verbatim>\<open>break\<close>: the first row with a
  valid phone whose normalised text equals \<open>normalizedPhone\<close>.
\<close>

fun find_normalized :: "string \<Rightarrow> Customer list \<Rightarrow> Customer option" where
  "find_normalized normalizedPhone [] = None"
| "find_normalized normalizedPhone (c # customers) =
     (if Valid (phone c) \<and> normalizePhoneNumber (String (phone c)) = normalizedPhone
      then Some c
      else find_normalized normalizedPhone customers)"

definition getCustomerByPhone :: "Queries \<Rightarrow> string \<Rightarrow> response" where
  "getCustomerByPhone queries phone_q =
     (if phone_q = [] then RespondError 400 ''Phone number is required''
      else
        (case GetCustomerByPhone queries \<lparr>String = phone_q, Valid = True\<rparr> of
           ErrOther \<Rightarrow> RespondError 500 ''Failed to get customer''
         | Row customer \<Rightarrow> CustomerResponse True (Some customer)
         | ErrNoRows \<Rightarrow>
             (let normalizedPhone = normalizePhoneNumber phone_q in
              case GetAllCustomers queries of
                Row customers \<Rightarrow>
                  (case find_normalized normalizedPhone customers of
                     Some c \<Rightarrow> CustomerResponse True (Some c)
                   | None \<Rightarrow> CustomerResponse False None)
              | _ \<Rightarrow> RespondError 500 ''Failed to get customers'')))"

text \<open>The lookup of a query string in a directory: the handler over the table's queries.\<close>

definition resolve :: "string \<Rightarrow> Customer list \<Rightarrow> response" where
  "resolve phone_q tbl = getCustomerByPhone (db_queries tbl) phone_q"

text \<open>
  The words of the specification, for comparison: a string keeps exactly its decimal
  digits and plus signs; two strings differ only in separators when they are equal
  once spaces, hyphens, parentheses and dots are removed; an entry matches a query
  exactly, or after normalisation.
\<close>

definition is_digit :: "char \<Rightarrow> bool" where
  "is_digit c = (c \<in> set ''0123456789'')"

definition is_separator :: "char \<Rightarrow> bool" where
  "is_separator c = (c \<in> set '' -().'')"

definition strip_separators :: "string \<Rightarrow> string" where
  "strip_separators s = filter (\<lambda>c. \<not> is_separator c) s"

definition exact_match :: "string \<Rightarrow> Customer \<Rightarrow> bool" where
  "exact_match q c = (Valid (phone c) \<and> String (phone c) = q)"

definition normalized_match :: "string \<Rightarrow> Customer \<Rightarrow> bool" where
  "normalized_match q c =
     (Valid (phone c) \<and> normalizePhoneNumber (String (phone c)) = normalizePhoneNumber q)"

definition directory :: "Customer list \<Rightarrow> Customer list" where
  "directory tbl = sort_key (\<lambda>c. - created_at c) tbl"

section \<open>Client: the call store (CallStore) and the page that drives it (src/main.js)\<close>

subsection \<open>Data\<close>

datatype phase = Idle | Incoming | Outgoing | Active | Ended

text \<open>
  The caller object: a JavaScript object with the keys the page and the store write
  (\<^verbatim>\<open>name\<close>, \<^verbatim>\<open>number\<close>, \<^verbatim>\<open>line1\<close>, \<^verbatim>\<open>line2\<close>, \<^verbatim>\<open>location\<close>); \<open>None\<close> is an absent key.
\<close>

record Caller =
  name :: "string option"
  number :: "string option"
  line1 :: "string option"
  line2 :: "string option"
  location :: "string option"

text \<open>
  \<^verbatim>\<open>this.state\<close>: \<^verbatim>\<open>{ state, caller, duration, startTime }\<close>. Times are milliseconds
  (\<^verbatim>\<open>Date.now()\<close>), \<open>duration\<close> is whole seconds.
\<close>

record CallState =
  state :: phase
  caller :: "Caller option"
  duration :: int
  startTime :: "int option"

text \<open>
  The callbacks the store hands to \<^verbatim>\<open>setTimeout\<close> and \<^verbatim>\<open>setInterval\<close>: the body of
  \<^verbatim>\<open>simulateConnection\<close>'s timeout, \<^verbatim>\<open>() => this.resetCall()\<close>, and the body of
  \<^verbatim>\<open>startDurationTimer\<close>'s interval.
\<close>

datatype callback = SimulateConnectionCb | ResetCallCb | DurationTickCb

text \<open>
  The store together with the part of the page it acts on. The fields of
  \<^verbatim>\<open>this.state\<close> come first, then \<^verbatim>\<open>this.durationTimer\<close> (a timer id or null), then
  \<open>notified\<close>: the snapshots \<^verbatim>\<open>notify()\<close> has passed to a subscribed listener, oldest
  first; \<open>alerts\<close>: the messages shown with \<^verbatim>\<open>alert\<close>; \<open>now\<close>: the clock
  \<^verbatim>\<open>Date.now()\<close>; \<open>timers\<close>: the pending timers of the window as (id, time due,
  callback), in the order they were set; \<open>next_timer\<close>: the next fresh timer id.
\<close>

record CallStore = CallState +
  durationTimer :: "nat option"
  notified :: "CallState list"
  alerts :: "string list"
  now :: int
  timers :: "(nat \<times> int \<times> callback) list"
  next_timer :: nat

text \<open>The constructor, on a page whose clock reads \<open>t0\<close>.\<close>

definition CallStore_new :: "int \<Rightarrow> CallStore" where
  "CallStore_new t0 =
     \<lparr>state = Idle, caller = None, duration = 0, startTime = None,
      durationTimer = None, notified = [], alerts = [], now = t0, timers = [],
      next_timer = 0\<rparr>"

subsection \<open>The window's timers\<close>

text \<open>
  \<^verbatim>\<open>setTimeout(cb, delay)\<close> and \<^verbatim>\<open>setInterval(cb, delay)\<close> append a timer due
  \<open>delay\<close> milliseconds from now and return its id; \<^verbatim>\<open>clearInterval(id)\<close> removes it.
\<close>

definition set_timer :: "callback \<Rightarrow> int \<Rightarrow> CallStore \<Rightarrow> CallStore" where
  "set_timer cb delay w =
     w\<lparr>timers := timers w @ [(next_timer w, now w + delay, cb)],
       next_timer := Suc (next_timer w)\<rparr>"

definition clearInterval :: "nat \<Rightarrow> CallStore \<Rightarrow> CallStore" where
  "clearInterval i w = w\<lparr>timers := filter (\<lambda>(j, d, cb). j \<noteq> i) (timers w)\<rparr>"

subsection \<open>CallStore\<close>

text \<open>\<^verbatim>\<open>getState()\<close>: a copy of \<^verbatim>\<open>this.state\<close>.\<close>

definition getState :: "CallStore \<Rightarrow> CallState" where
  "getState w =
     \<lparr>state = state w, caller = caller w, duration = duration w, startTime = startTime w\<rparr>"

definition notify :: "CallStore \<Rightarrow> CallStore" where
  "notify w = w\<lparr>notified := notified w @ [getState w]\<rparr>"

text \<open>\<^verbatim>\<open>receiveCall(caller)\<close>; the argument is any value, \<open>None\<close> being \<^verbatim>\<open>null\<close>.\<close>

definition receiveCall :: "Caller option \<Rightarrow> CallStore \<Rightarrow> CallStore" where
  "receiveCall c w =
     notify (w\<lparr>state := Incoming, caller := c, duration := 0, startTime := None\<rparr>)"

definition startDurationTimer :: "CallStore \<Rightarrow> CallStore" where
  "startDurationTimer w =
     (set_timer DurationTickCb 1000 w)\<lparr>durationTimer := Some (next_timer w)\<rparr>"

definition stopDurationTimer :: "CallStore \<Rightarrow> CallStore" where
  "stopDurationTimer w =
     (case durationTimer w of
        None \<Rightarrow> w
      | Some i \<Rightarrow> (clearInterval i w)\<lparr>durationTimer := None\<rparr>)"

definition simulateConnection :: "CallStore \<Rightarrow> CallStore" where
  "simulateConnection w = set_timer SimulateConnectionCb 2000 w"

text \<open>The body of the timeout set by \<^verbatim>\<open>simulateConnection\<close>.\<close>

definition simulateConnection_cb :: "CallStore \<Rightarrow> CallStore" where
  "simulateConnection_cb w =
     (if state w = Outgoing
      then notify (startDurationTimer (w\<lparr>state := Active, startTime := Some (now w)\<rparr>))
      else w)"

text \<open>
  \<^verbatim>\<open>initiateCall(number, callerInfo)\<close>: \<^verbatim>\<open>callerInfo || { name: number, number: number,
  line1: '', line2: '' }\<close>.
\<close>

definition initiateCall :: "string \<Rightarrow> Caller option \<Rightarrow> CallStore \<Rightarrow> CallStore" where
  "initiateCall num callerInfo w =
     (let c = (case callerInfo of
                 Some info \<Rightarrow> info
               | None \<Rightarrow> \<lparr>name = Some num, number = Some num, line1 = Some [],
                           line2 = Some [], location = None\<rparr>)
      in simulateConnection
           (notify (w\<lparr>state := Outgoing, caller := Some c, duration := 0,
                      startTime := None\<rparr>)))"

definition acceptCall :: "CallStore \<Rightarrow> CallStore" where
  "acceptCall w =
     (if state w = Incoming
      then notify (startDurationTimer (w\<lparr>state := Active, startTime := Some (now w)\<rparr>))
      else w)"

definition declineCall :: "CallStore \<Rightarrow> CallStore" where
  "declineCall w =
     (if state w = Incoming
      then set_timer ResetCallCb 2000 (notify (w\<lparr>state := Ended\<rparr>))
      else w)"

definition endCall :: "CallStore \<Rightarrow> CallStore" where
  "endCall w =
     (if state w = Active
      then set_timer ResetCallCb 2000 (notify ((stopDurationTimer w)\<lparr>state := Ended\<rparr>))
      else if state w = Outgoing
      then set_timer ResetCallCb 1000 (notify (w\<lparr>state := Ended\<rparr>))
      else w)"

definition resetCall :: "CallStore \<Rightarrow> CallStore" where
  "resetCall w =
     notify (w\<lparr>state := Idle, caller := None, duration := 0, startTime := None\<rparr>)"

text \<open>
  The body of the interval set by \<^verbatim>\<open>startDurationTimer\<close>:
  \<^verbatim>\<open>if (this.state.startTime) { this.state.duration =
  Math.floor((Date.now() - this.state.startTime) / 1000); this.notify(); }\<close>.
  A start time of 0 is falsy, like \<^verbatim>\<open>null\<close>.
\<close>

definition durationTick_cb :: "CallStore \<Rightarrow> CallStore" where
  "durationTick_cb w =
     (case startTime w of
        None \<Rightarrow> w
      | Some t0 \<Rightarrow>
          if t0 = 0 then w
          else notify (w\<lparr>duration := (now w - t0) div 1000\<rparr>))"

subsection \<open>Time\<close>

text \<open>
  A timer that is due runs its callback. A timeout is removed from the pending timers
  when it runs; the duration interval is set again 1000 ms after the time it was due.
  No callback of the store clears a timer, so the timers due at one instant all run,
  in the order they were set.
\<close>

fun fire :: "nat \<times> int \<times> callback \<Rightarrow> CallStore \<Rightarrow> CallStore" where
  "fire (i, d, SimulateConnectionCb) w =
     simulateConnection_cb (w\<lparr>timers := removeAll (i, d, SimulateConnectionCb) (timers w)\<rparr>)"
| "fire (i, d, ResetCallCb) w =
     resetCall (w\<lparr>timers := removeAll (i, d, ResetCallCb) (timers w)\<rparr>)"
| "fire (i, d, DurationTickCb) w =
     durationTick_cb
       (w\<lparr>timers := map (\<lambda>t. if t = (i, d, DurationTickCb) then (i, d + 1000, DurationTickCb)
                                else t)
                       (timers w)\<rparr>)"

definition fire_due :: "CallStore \<Rightarrow> CallStore" where
  "fire_due w = fold fire (filter (\<lambda>(i, d, cb). d \<le> now w) (timers w)) w"

text \<open>One millisecond passes; \<open>advance n\<close>: \<open>n\<close> milliseconds pass.\<close>

definition tick :: "CallStore \<Rightarrow> CallStore" where
  "tick w = fire_due (w\<lparr>now := now w + 1\<rparr>)"

definition advance :: "nat \<Rightarrow> CallStore \<Rightarrow> CallStore" where
  "advance n w = (tick ^^ n) w"

subsection \<open>CustomerService\<close>

text \<open>
  \<^verbatim>\<open>getCustomerByPhone\<close> of the client: \<open>None\<close> for the argument is a \<^verbatim>\<open>fetch\<close> that
  threw; a response that is not ok, or carries no customer, gives \<^verbatim>\<open>null\<close>.
\<close>

definition CustomerService_getCustomerByPhone :: "response option \<Rightarrow> Customer option" where
  "CustomerService_getCustomerByPhone r =
     (case r of
        None \<Rightarrow> None
      | Some (RespondError status msg) \<Rightarrow> None
      | Some (CustomerResponse success customer) \<Rightarrow> (if success then customer else None))"

record CustomerInfo =
  info_name :: string
  info_line1 :: string
  info_line2 :: string

definition formatDisplayName :: "Customer \<Rightarrow> string" where
  "formatDisplayName customer = first_name customer @ '' '' @ last_name customer"

definition formatCustomerInfo :: "Customer option \<Rightarrow> CustomerInfo option" where
  "formatCustomerInfo customer =
     (case customer of
        None \<Rightarrow> None
      | Some c \<Rightarrow>
          Some \<lparr>info_name = formatDisplayName c,
                info_line1 = (if String (medical_aid_provider c) \<noteq> []
                              then String (medical_aid_provider c) else []),
                info_line2 = (if String (medical_plan c) \<noteq> []
                              then ''('' @ String (medical_plan c) @ '')'' else [])\<rparr>)"

subsection \<open>The page: listeners and handlers of src/main.js\<close>

text \<open>
  \<^verbatim>\<open>callStore.state.caller = { ...callStore.state.caller, name: formattedInfo.name,
  line1: formattedInfo.line1, line2: formattedInfo.line2 }; callStore.notify()\<close>.
  Spreading \<^verbatim>\<open>null\<close> gives no keys.
\<close>

definition apply_customer :: "CustomerInfo \<Rightarrow> CallStore \<Rightarrow> CallStore" where
  "apply_customer formattedInfo w =
     (let old = (case caller w of
                   Some c \<Rightarrow> c
                 | None \<Rightarrow> \<lparr>name = None, number = None, line1 = None, line2 = None,
                             location = None\<rparr>)
      in notify (w\<lparr>caller := Some (old\<lparr>name := Some (info_name formattedInfo),
                                         line1 := Some (info_line1 formattedInfo),
                                         line2 := Some (info_line2 formattedInfo)\<rparr>)\<rparr>))"

datatype js_error = TypeError

text \<open>
  The callback of the lookup started by the \<^verbatim>\<open>onIncoming\<close> listener:
  \<^verbatim>\<open>if (customer && callStore.state.state === 'incoming') { ... }\<close>.
\<close>

definition incoming_lookup_then :: "Customer option \<Rightarrow> CallStore \<Rightarrow> js_error + CallStore" where
  "incoming_lookup_then customer w =
     (if customer \<noteq> None \<and> state w = Incoming
      then (case formatCustomerInfo customer of
              None \<Rightarrow> Inl TypeError
            | Some formattedInfo \<Rightarrow> Inr (apply_customer formattedInfo w))
      else Inr w)"

text \<open>
  The callback of the lookup started by \<^verbatim>\<open>handleDialCall\<close>:
  \<^verbatim>\<open>if (customer && callStore.state.state === 'outgoing' ||
  callStore.state.state === 'active') { ... }\<close>, where \<^verbatim>\<open>&&\<close> binds tighter than
  \<^verbatim>\<open>||\<close>. With no customer in phase active, \<^verbatim>\<open>formatCustomerInfo\<close> returns
  \<^verbatim>\<open>null\<close> and reading \<^verbatim>\<open>formattedInfo.name\<close> throws before anything is written.
\<close>

definition dial_lookup_then :: "Customer option \<Rightarrow> CallStore \<Rightarrow> js_error + CallStore" where
  "dial_lookup_then customer w =
     (if (customer \<noteq> None \<and> state w = Outgoing) \<or> state w = Active
      then (case formatCustomerInfo customer of
              None \<Rightarrow> Inl TypeError
            | Some formattedInfo \<Rightarrow> Inr (apply_customer formattedInfo w))
      else Inr w)"

text \<open>\<^verbatim>\<open>.catch(err => console.log(...))\<close>: an error thrown by the callback is logged.\<close>

definition catch_log :: "js_error + CallStore \<Rightarrow> CallStore \<Rightarrow> CallStore" where
  "catch_log r w = (case r of Inl err \<Rightarrow> w | Inr w' \<Rightarrow> w')"

definition incoming_lookup_done :: "Customer option \<Rightarrow> CallStore \<Rightarrow> CallStore" where
  "incoming_lookup_done customer w = catch_log (incoming_lookup_then customer w) w"

definition dial_lookup_done :: "Customer option \<Rightarrow> CallStore \<Rightarrow> CallStore" where
  "dial_lookup_done customer w = catch_log (dial_lookup_then customer w) w"

text \<open>The listeners given to the transport.\<close>

definition onIncoming :: "string \<Rightarrow> CallStore \<Rightarrow> CallStore" where
  "onIncoming from w =
     receiveCall (Some \<lparr>name = Some from, number = Some from, line1 = None, line2 = None,
                        location = Some []\<rparr>) w"

definition onConnected :: "CallStore \<Rightarrow> CallStore" where
  "onConnected w = w"

definition onDisconnected :: "CallStore \<Rightarrow> CallStore" where
  "onDisconnected w = endCall w"

definition onError :: "string \<Rightarrow> CallStore \<Rightarrow> CallStore" where
  "onError message w = w\<lparr>alerts := alerts w @ [''Call error: '' @ message]\<rparr>"

text \<open>
  \<^verbatim>\<open>handleDialCall\<close> up to the \<^verbatim>\<open>await\<close> of \<^verbatim>\<open>makeCall\<close>: nothing happens unless
  \<^verbatim>\<open>currentNumber.trim().length > 0\<close>, that is, unless the typed number has a
  character that is not white space; when the transport is not ready
  (\<^verbatim>\<open>twilioService.isReady()\<close>, here \<open>ready\<close>) the page shows an alert and returns;
  otherwise the call is initiated with the normalised number. Then its \<^verbatim>\<open>catch\<close>
  block, which runs when \<^verbatim>\<open>makeCall\<close> throws.
\<close>

definition is_white_space :: "char \<Rightarrow> bool" where
  "is_white_space c =
     (c \<in> {CHR 0x09, CHR 0x0A, CHR 0x0B, CHR 0x0C, CHR 0x0D, CHR '' '', CHR 0xA0})"

definition handleDialCall_start :: "bool \<Rightarrow> string \<Rightarrow> CallStore \<Rightarrow> CallStore" where
  "handleDialCall_start ready currentNumber w =
     (if list_all is_white_space currentNumber then w
      else if \<not> ready
      then w\<lparr>alerts := alerts w @ [''Please connect to Twilio first before making calls.'']\<rparr>
      else initiateCall (normalizePhoneNumber_js currentNumber) None w)"

definition handleDialCall_catch :: "string \<Rightarrow> CallStore \<Rightarrow> CallStore" where
  "handleDialCall_catch message w =
     resetCall (w\<lparr>alerts := alerts w @ [''Failed to make call: '' @ message]\<rparr>)"

subsection \<open>Runs\<close>

text \<open>
  What can happen to the store: a method is called (\<open>ReceiveCall\<close> with a caller
  object, as the page does), time passes and due timers run, a lookup completes, the
  transport reports an event, a dial fails.
\<close>

datatype event =
    ReceiveCall Caller
  | InitiateCall string "Caller option"
  | AcceptCall
  | DeclineCall
  | EndCall
  | ResetCall
  | Elapse nat
  | IncomingLookupDone "Customer option"
  | DialLookupDone "Customer option"
  | OnIncoming string
  | OnConnected
  | OnDisconnected
  | OnError string
  | DialStart bool string
  | DialFailed string

fun apply_event :: "event \<Rightarrow> CallStore \<Rightarrow> CallStore" where
  "apply_event (ReceiveCall c) w = receiveCall (Some c) w"
| "apply_event (InitiateCall num callerInfo) w = initiateCall num callerInfo w"
| "apply_event AcceptCall w = acceptCall w"
| "apply_event DeclineCall w = declineCall w"
| "apply_event EndCall w = endCall w"
| "apply_event ResetCall w = resetCall w"
| "apply_event (Elapse n) w = advance n w"
| "apply_event (IncomingLookupDone customer) w = incoming_lookup_done customer w"
| "apply_event (DialLookupDone customer) w = dial_lookup_done customer w"
| "apply_event (OnIncoming from) w = onIncoming from w"
| "apply_event OnConnected w = onConnected w"
| "apply_event OnDisconnected w = onDisconnected w"
| "apply_event (OnError message) w = onError message w"
| "apply_event (DialStart ready currentNumber) w = handleDialCall_start ready currentNumber w"
| "apply_event (DialFailed message) w = handleDialCall_catch message w"

definition run :: "event list \<Rightarrow> CallStore \<Rightarrow> CallStore" where
  "run evs w = fold apply_event evs w"

subsection \<open>Properties of a store\<close>

text \<open>
  The session is idle with nothing left of the last call: caller \<^verbatim>\<open>null\<close>, duration
  0, start time \<^verbatim>\<open>null\<close>.
\<close>

definition idle_cleared :: "CallStore \<Rightarrow> bool" where
  "idle_cleared w = (state w = Idle \<and> caller w = None \<and> duration w = 0 \<and> startTime w = None)"

text \<open>
  The caller is set in the phases of a call, the phase ended included, and \<^verbatim>\<open>null\<close>
  when idle.
\<close>

definition caller_invariant :: "CallStore \<Rightarrow> bool" where
  "caller_invariant w =
     ((state w \<in> {Incoming, Outgoing, Active, Ended} \<longrightarrow> caller w \<noteq> None) \<and>
      (state w = Idle \<longrightarrow> caller w = None))"

text \<open>No pending reset is due within the next \<open>n\<close> milliseconds.\<close>

definition no_reset_due :: "nat \<Rightarrow> CallStore \<Rightarrow> bool" where
  "no_reset_due n w =
     (\<forall>t\<in>set (timers w). snd (snd t) = ResetCallCb \<longrightarrow> now w + int n < fst (snd t))"

subsection \<open>Example data\<close>

text \<open>A customer row with the given id, stored phone and creation time.\<close>

definition a_customer :: "int \<Rightarrow> string \<Rightarrow> int \<Rightarrow> Customer" where
  "a_customer i p t =
     \<lparr>customer_id = i, company_id = 1, first_name = ''Thandi'', last_name = ''Nkosi'',
      email = \<lparr>String = [], Valid = False\<rparr>, phone = \<lparr>String = p, Valid = True\<rparr>,
      medical_aid_provider = \<lparr>String = ''Discovery'', Valid = True\<rparr>,
      medical_aid_number = \<lparr>String = [], Valid = False\<rparr>,
      medical_plan = \<lparr>String = ''Classic'', Valid = True\<rparr>, created_at = t\<rparr>"

text \<open>A caller object as the incoming-call listener builds it.\<close>

definition a_caller :: "string \<Rightarrow> Caller" where
  "a_caller from =
     \<lparr>name = Some from, number = Some from, line1 = None, line2 = None, location = Some []\<rparr>"

section \<open>Properties of the server\<close>

subsection \<open>Normalisation is a filter\<close>

lemma normalize_loop_filter:
  "normalize_loop acc s = acc @ filter (\<lambda>c. is_digit c \<or> c = CHR ''+'') s"
proof (induction s arbitrary: acc)
  case Nil
  show ?case by simp
next
  case (Cons ch s)
  have range: "(CHR ''0'' \<le> ch \<and> ch \<le> CHR ''9'') = is_digit ch"
    by (cases ch) (simp add: is_digit_def less_eq_char_def)
  show ?case by (simp add: Cons.IH range)
qed

lemma normalize_filter:
  "normalizePhoneNumber s = filter (\<lambda>c. is_digit c \<or> c = CHR ''+'') s"
  by (simp add: normalizePhoneNumber_def normalize_loop_filter)

lemma kept_not_separator: "is_digit c \<or> c = CHR ''+'' \<Longrightarrow> \<not> is_separator c"
  by (auto simp: is_digit_def is_separator_def)

lemma normalize_strip: "normalizePhoneNumber (strip_separators s) = normalizePhoneNumber s"
proof -
  have "(\<lambda>c. \<not> is_separator c \<and> (is_digit c \<or> c = CHR ''+'')) = (\<lambda>c. is_digit c \<or> c = CHR ''+'')"
    using kept_not_separator by blast
  then show ?thesis
    by (simp add: normalize_filter strip_separators_def)
qed

text \<open>
  C2, as the code has it. \<open>normalizePhoneNumber\<close> removes every character except the
  decimal digits and the plus sign, and keeps every plus sign, wherever it stands: the
  result is the input's digits and plus signs in their original order. In particular
  the digits of the result are the digits of the input, in order, and so are its plus
  signs.
\<close>

theorem normalize_keeps_digits_and_plus:
  "normalizePhoneNumber s = filter (\<lambda>c. is_digit c \<or> c = CHR ''+'') s \<and>
   filter is_digit (normalizePhoneNumber s) = filter is_digit s \<and>
   filter (\<lambda>c. c = CHR ''+'') (normalizePhoneNumber s) = filter (\<lambda>c. c = CHR ''+'') s"
proof -
  have d: "(\<lambda>c. (is_digit c \<or> c = CHR ''+'') \<and> is_digit c) = is_digit"
    by blast
  have p: "(\<lambda>c. (is_digit c \<or> c = CHR ''+'') \<and> c = CHR ''+'') = (\<lambda>c. c = CHR ''+'')"
    by blast
  show ?thesis
    by (simp add: normalize_filter d p)
qed

text \<open>
  C2 as stated says that a plus sign that is not leading does not appear in the
  result. On the input \<open>12+34\<close> the plus sign stands in third place, and the result
  is \<open>12+34\<close>, plus sign included.
\<close>

theorem normalize_nonleading_plus_kept:
  "normalizePhoneNumber ''12+34'' = ''12+34''"
  by (simp add: normalizePhoneNumber_def)

text \<open>The client's function keeps a plus sign that is not leading as well.\<close>

lemma normalizePhoneNumber_js_nonleading_plus_kept:
  "normalizePhoneNumber_js ''12+34'' = ''12+34''"
  by (simp add: normalizePhoneNumber_js_def starts_with_def)

text \<open>
  C3. \<open>normalizePhoneNumber\<close> is idempotent, and two strings that differ only in
  spaces, hyphens, parentheses or dots (that is, that are equal once these are
  removed) have the same normal form.
\<close>

theorem normalize_idempotent_separators:
  "normalizePhoneNumber (normalizePhoneNumber x) = normalizePhoneNumber x \<and>
   (strip_separators s = strip_separators t \<longrightarrow> normalizePhoneNumber s = normalizePhoneNumber t)"
proof
  show "normalizePhoneNumber (normalizePhoneNumber x) = normalizePhoneNumber x"
    by (simp add: normalize_filter)
next
  show "strip_separators s = strip_separators t \<longrightarrow> normalizePhoneNumber s = normalizePhoneNumber t"
  proof
    assume eq: "strip_separators s = strip_separators t"
    have "normalizePhoneNumber s = normalizePhoneNumber (strip_separators s)"
      by (simp add: normalize_strip)
    also have "\<dots> = normalizePhoneNumber (strip_separators t)"
      by (simp add: eq)
    also have "\<dots> = normalizePhoneNumber t"
      by (simp add: normalize_strip)
    finally show "normalizePhoneNumber s = normalizePhoneNumber t" .
  qed
qed

theorem normalize_idempotent_separators_witness:
  "strip_separators ''+27 (67) 296-6361'' = strip_separators ''+27.67.296.6361'' \<and>
   normalizePhoneNumber ''+27 (67) 296-6361'' = normalizePhoneNumber ''+27.67.296.6361'' \<and>
   normalizePhoneNumber (normalizePhoneNumber ''+27 (67) 296-6361'') = ''+27672966361''"
proof -
  have h: "strip_separators ''+27 (67) 296-6361'' = strip_separators ''+27.67.296.6361''"
    by (simp add: strip_separators_def is_separator_def)
  show ?thesis
    using h normalize_idempotent_separators
      [of "''+27 (67) 296-6361''" "''+27 (67) 296-6361''" "''+27.67.296.6361''"]
    by (simp add: normalizePhoneNumber_def)
qed

subsection \<open>Lookup\<close>

lemma find_some_mem: "find P xs = Some c \<Longrightarrow> c \<in> set xs \<and> P c"
proof (induction xs)
  case Nil
  then show ?case by simp
next
  case (Cons x xs)
  show ?case
  proof (cases "P x")
    case True
    with Cons.prems show ?thesis by simp
  next
    case False
    with Cons show ?thesis by simp
  qed
qed

lemma find_exists: "c \<in> set xs \<Longrightarrow> P c \<Longrightarrow> \<exists>d. find P xs = Some d"
proof -
  assume "c \<in> set xs" "P c"
  then have "find P xs \<noteq> None"
    unfolding find_None_iff by blast
  then show ?thesis by blast
qed

lemma find_unique:
  assumes "c \<in> set xs" "P c" "\<forall>d\<in>set xs. P d \<longrightarrow> d = c"
  shows "find P xs = Some c"
proof -
  obtain d where d: "find P xs = Some d"
    using find_exists [of c xs P] assms(1,2) by blast
  then have "d \<in> set xs \<and> P d"
    by (rule find_some_mem)
  with assms(3) have "d = c" by blast
  with d show ?thesis by simp
qed

lemma find_normalized_find:
  "find_normalized (normalizePhoneNumber q) cs = find (normalized_match q) cs"
  by (induction cs) (simp_all add: normalized_match_def)

lemma sql_exact_find:
  "sql_GetCustomerByPhone tbl \<lparr>String = q, Valid = True\<rparr> =
     (case find (exact_match q) tbl of None \<Rightarrow> ErrNoRows | Some c \<Rightarrow> Row c)"
  by (induction tbl) (simp_all add: sql_GetCustomerByPhone_def exact_match_def)

lemma resolve_eq:
  "q \<noteq> [] \<Longrightarrow> resolve q tbl =
      (case find (exact_match q) tbl of
         Some c \<Rightarrow> CustomerResponse True (Some c)
       | None \<Rightarrow> (case find (normalized_match q) (directory tbl) of
                   Some c \<Rightarrow> CustomerResponse True (Some c)
                 | None \<Rightarrow> CustomerResponse False None))"
  by (simp add: resolve_def getCustomerByPhone_def db_queries_def sql_exact_find
      sql_GetAllCustomers_def find_normalized_find directory_def split: option.splits)

text \<open>The empty query is rejected whatever the table holds.\<close>

lemma resolve_empty_query: "resolve [] tbl = RespondError 400 ''Phone number is required''"
  by (simp add: resolve_def getCustomerByPhone_def)

text \<open>
  C1, as the code has it. For every query that is not empty, \<open>resolve\<close> first looks
  for an entry whose stored phone is the query, character for character, and answers
  with the first such entry of the table; only if there is none does it normalise the
  query and scan the directory (the table by creation time, newest first), answering
  with the first entry whose normalised stored phone equals the normalised query, or
  with "not found". In particular, when the query is the stored phone of an entry, the
  answer is an entry with that very stored phone (that entry itself when no other
  entry stores the same text), whatever other entries normalise to.
\<close>

theorem resolve_exact_then_normalized:
  "q \<noteq> [] \<Longrightarrow>
   resolve q tbl =
     (case find (exact_match q) tbl of
        Some c \<Rightarrow> CustomerResponse True (Some c)
      | None \<Rightarrow> (case find (normalized_match q) (directory tbl) of
                  Some c \<Rightarrow> CustomerResponse True (Some c)
                | None \<Rightarrow> CustomerResponse False None)) \<and>
   (\<forall>c\<in>set tbl. exact_match q c \<longrightarrow>
      (\<exists>c'\<in>set tbl. exact_match q c' \<and> resolve q tbl = CustomerResponse True (Some c')) \<and>
      ((\<forall>d\<in>set tbl. exact_match q d \<longrightarrow> d = c) \<longrightarrow>
         resolve q tbl = CustomerResponse True (Some c)))"
proof (intro conjI ballI impI)
  assume q: "q \<noteq> []"
  show "resolve q tbl =
     (case find (exact_match q) tbl of
        Some c \<Rightarrow> CustomerResponse True (Some c)
      | None \<Rightarrow> (case find (normalized_match q) (directory tbl) of
                  Some c \<Rightarrow> CustomerResponse True (Some c)
                | None \<Rightarrow> CustomerResponse False None))"
    using q by (rule resolve_eq)
next
  fix c
  assume q: "q \<noteq> []" and c: "c \<in> set tbl" "exact_match q c"
  obtain d where d: "find (exact_match q) tbl = Some d"
    using find_exists [of c tbl "exact_match q"] c by blast
  then have "d \<in> set tbl \<and> exact_match q d"
    by (rule find_some_mem)
  moreover have "resolve q tbl = CustomerResponse True (Some d)"
    by (simp add: resolve_eq [OF q] d)
  ultimately show "\<exists>c'\<in>set tbl. exact_match q c' \<and> resolve q tbl = CustomerResponse True (Some c')"
    by blast
next
  fix c
  assume q: "q \<noteq> []" and c: "c \<in> set tbl" "exact_match q c"
    and u: "\<forall>d\<in>set tbl. exact_match q d \<longrightarrow> d = c"
  have "find (exact_match q) tbl = Some c"
    using c u by (rule find_unique)
  then show "resolve q tbl = CustomerResponse True (Some c)"
    by (simp add: resolve_eq [OF q])
qed

theorem resolve_exact_then_normalized_witness:
  "''067 296 6361'' \<noteq> [] \<and>
   normalized_match ''067 296 6361'' (a_customer 1 ''0672966361'' 20) \<and>
   directory [a_customer 2 ''067 296 6361'' 10, a_customer 1 ''0672966361'' 20] =
     [a_customer 1 ''0672966361'' 20, a_customer 2 ''067 296 6361'' 10] \<and>
   resolve ''067 296 6361'' [a_customer 2 ''067 296 6361'' 10, a_customer 1 ''0672966361'' 20] =
     CustomerResponse True (Some (a_customer 2 ''067 296 6361'' 10))"
proof -
  have q: "''067 296 6361'' \<noteq> []" by simp
  have m: "exact_match ''067 296 6361'' (a_customer 2 ''067 296 6361'' 10)"
    by (simp add: exact_match_def a_customer_def)
  have n: "\<not> exact_match ''067 296 6361'' (a_customer 1 ''0672966361'' 20)"
    by (simp add: exact_match_def a_customer_def)
  have nm: "normalized_match ''067 296 6361'' (a_customer 1 ''0672966361'' 20)"
    by (simp add: normalized_match_def a_customer_def normalizePhoneNumber_def)
  have d: "directory [a_customer 2 ''067 296 6361'' 10, a_customer 1 ''0672966361'' 20] =
     [a_customer 1 ''0672966361'' 20, a_customer 2 ''067 296 6361'' 10]"
    by (simp add: directory_def a_customer_def)
  have "resolve ''067 296 6361'' [a_customer 2 ''067 296 6361'' 10, a_customer 1 ''0672966361'' 20] =
     CustomerResponse True (Some (a_customer 2 ''067 296 6361'' 10))"
    using resolve_exact_then_normalized
      [OF q, of "[a_customer 2 ''067 296 6361'' 10, a_customer 1 ''0672966361'' 20]"] m n
    by simp
  with q nm d show ?thesis by blast
qed

text \<open>
  C1 as stated speaks of every query string. The handler rejects the empty query
  before it looks anything up: with an entry whose stored phone is the empty string,
  the empty query is answered with status 400 and not with that entry.
\<close>

theorem resolve_empty_query_rejected:
  "exact_match [] (a_customer 1 [] 10) \<and>
   resolve [] [a_customer 1 [] 10] = RespondError 400 ''Phone number is required''"
  by (simp add: exact_match_def a_customer_def resolve_def getCustomerByPhone_def)

section \<open>Properties of the call store\<close>

lemmas store_defs =
  notify_def getState_def set_timer_def clearInterval_def receiveCall_def
  startDurationTimer_def stopDurationTimer_def simulateConnection_def
  simulateConnection_cb_def initiateCall_def acceptCall_def declineCall_def endCall_def
  resetCall_def durationTick_cb_def

lemmas page_defs =
  apply_customer_def incoming_lookup_then_def dial_lookup_then_def catch_log_def
  incoming_lookup_done_def dial_lookup_done_def onIncoming_def onConnected_def
  onDisconnected_def onError_def handleDialCall_start_def handleDialCall_catch_def

subsection \<open>The caller and the phase\<close>

lemma inv_receiveCall: "caller_invariant (receiveCall (Some c) w)"
  by (simp add: caller_invariant_def store_defs)

lemma inv_initiateCall: "caller_invariant (initiateCall num info w)"
  by (simp add: caller_invariant_def store_defs Let_def)

lemma inv_acceptCall: "caller_invariant w \<Longrightarrow> caller_invariant (acceptCall w)"
  by (simp add: caller_invariant_def store_defs)

lemma inv_declineCall: "caller_invariant w \<Longrightarrow> caller_invariant (declineCall w)"
  by (simp add: caller_invariant_def store_defs)

lemma inv_endCall: "caller_invariant w \<Longrightarrow> caller_invariant (endCall w)"
  by (simp add: caller_invariant_def store_defs split: option.splits)

lemma inv_resetCall: "caller_invariant (resetCall w)"
  by (simp add: caller_invariant_def store_defs)

lemma inv_simulateConnection_cb:
  "caller_invariant w \<Longrightarrow> caller_invariant (simulateConnection_cb w)"
  by (simp add: caller_invariant_def store_defs)

lemma inv_durationTick_cb: "caller_invariant w \<Longrightarrow> caller_invariant (durationTick_cb w)"
  by (simp add: caller_invariant_def store_defs split: option.splits)

lemma inv_timers_update: "caller_invariant (w\<lparr>timers := ts\<rparr>) = caller_invariant w"
  by (simp add: caller_invariant_def)

lemma inv_now_update: "caller_invariant (w\<lparr>now := t\<rparr>) = caller_invariant w"
  by (simp add: caller_invariant_def)

lemma inv_alerts_update: "caller_invariant (w\<lparr>alerts := t\<rparr>) = caller_invariant w"
  by (simp add: caller_invariant_def)

lemma inv_fire: "caller_invariant w \<Longrightarrow> caller_invariant (fire t w)"
proof -
  assume inv: "caller_invariant w"
  obtain i d cb where t: "t = (i, d, cb)"
    by (cases t) auto
  show ?thesis
  proof (cases cb)
    case SimulateConnectionCb
    with t inv show ?thesis
      by (simp add: inv_simulateConnection_cb inv_timers_update)
  next
    case ResetCallCb
    with t show ?thesis
      by (simp add: inv_resetCall)
  next
    case DurationTickCb
    with t inv show ?thesis
      by (simp add: inv_durationTick_cb inv_timers_update)
  qed
qed

lemma inv_fold_fire: "caller_invariant w \<Longrightarrow> caller_invariant (fold fire ts w)"
  by (induction ts arbitrary: w) (simp_all add: inv_fire)

lemma inv_tick: "caller_invariant w \<Longrightarrow> caller_invariant (tick w)"
  by (simp add: tick_def fire_due_def inv_fold_fire inv_now_update)

lemma inv_advance: "caller_invariant w \<Longrightarrow> caller_invariant (advance n w)"
  by (induction n) (simp_all add: advance_def inv_tick)

lemma inv_apply_customer: "caller_invariant w \<Longrightarrow> state w \<noteq> Idle \<Longrightarrow> caller_invariant (apply_customer info w)"
  by (simp add: caller_invariant_def apply_customer_def notify_def Let_def)

lemma inv_incoming_lookup_done:
  "caller_invariant w \<Longrightarrow> caller_invariant (incoming_lookup_done customer w)"
  by (auto simp: incoming_lookup_done_def incoming_lookup_then_def catch_log_def
      inv_apply_customer split: option.splits)

lemma inv_dial_lookup_done:
  "caller_invariant w \<Longrightarrow> caller_invariant (dial_lookup_done customer w)"
  by (auto simp: dial_lookup_done_def dial_lookup_then_def catch_log_def
      inv_apply_customer split: option.splits)

lemma inv_apply_event: "caller_invariant w \<Longrightarrow> caller_invariant (apply_event ev w)"
  by (cases ev)
    (simp_all add: inv_receiveCall inv_initiateCall inv_acceptCall inv_declineCall
      inv_endCall inv_resetCall inv_advance inv_incoming_lookup_done inv_dial_lookup_done
      onIncoming_def onConnected_def onDisconnected_def onError_def inv_alerts_update
      handleDialCall_start_def handleDialCall_catch_def)

lemma inv_run: "caller_invariant w \<Longrightarrow> caller_invariant (run evs w)"
  unfolding run_def by (induction evs arbitrary: w) (simp_all add: inv_apply_event)

lemma inv_new: "caller_invariant (CallStore_new t0)"
  by (simp add: caller_invariant_def CallStore_new_def)

text \<open>
  C4, as the code has it. In every state reached from the initial idle store by the
  operations of the store and the page (\<open>receiveCall\<close> with a caller object,
  \<open>initiateCall\<close>, \<open>acceptCall\<close>, \<open>declineCall\<close>, \<open>endCall\<close>, \<open>resetCall\<close>, the passing
  of time with the simulated connection, the duration ticks and the scheduled resets,
  the completion of lookups, the transport's events), the caller is set whenever the
  phase is incoming, outgoing, active or ended, and is \<^verbatim>\<open>null\<close> whenever the phase is
  idle.
\<close>

theorem caller_set_during_call_null_when_idle:
  "caller_invariant (run evs (CallStore_new t0))"
  by (rule inv_run [OF inv_new])

theorem caller_set_during_call_null_when_idle_witness:
  "state (run [OnIncoming ''+15551234567'', AcceptCall, EndCall] (CallStore_new 0)) = Ended \<and>
   caller (run [OnIncoming ''+15551234567'', AcceptCall, EndCall] (CallStore_new 0)) \<noteq> None \<and>
   state (run [OnIncoming ''+15551234567'', DeclineCall, ResetCall] (CallStore_new 0)) = Idle \<and>
   caller (run [OnIncoming ''+15551234567'', DeclineCall, ResetCall] (CallStore_new 0)) = None"
proof -
  have a: "state (run [OnIncoming ''+15551234567'', AcceptCall, EndCall] (CallStore_new 0)) = Ended"
    by (simp add: run_def page_defs store_defs CallStore_new_def)
  have b: "state (run [OnIncoming ''+15551234567'', DeclineCall, ResetCall] (CallStore_new 0)) = Idle"
    by (simp add: run_def page_defs store_defs CallStore_new_def)
  show ?thesis
    using a b
      caller_set_during_call_null_when_idle
        [of "[OnIncoming ''+15551234567'', AcceptCall, EndCall]" 0]
      caller_set_during_call_null_when_idle
        [of "[OnIncoming ''+15551234567'', DeclineCall, ResetCall]" 0]
    by (simp add: caller_invariant_def)
qed

text \<open>
  C4 as stated says that the caller is \<^verbatim>\<open>null\<close> in the phase ended as well.
  \<open>declineCall\<close> and \<open>endCall\<close> copy the state and change the phase only
  (\<^verbatim>\<open>{ ...this.state, state: 'ended' }\<close>): after an incoming call is declined the phase
  is ended and the caller is still the caller of that call.
\<close>

theorem caller_kept_when_ended:
  "state (run [ReceiveCall (a_caller ''+15551234567''), DeclineCall] (CallStore_new 0)) = Ended \<and>
   caller (run [ReceiveCall (a_caller ''+15551234567''), DeclineCall] (CallStore_new 0)) =
     Some (a_caller ''+15551234567'')"
  by (simp add: run_def store_defs CallStore_new_def)

subsection \<open>receiveCall\<close>

text \<open>
  C10. In every state, \<open>receiveCall\<close> sets the state to phase incoming with the given
  caller, duration 0 and no start time, and notifies; it leaves \<open>durationTimer\<close> and
  the pending timers as they were, so a duration interval that was running keeps
  running.
\<close>

theorem receiveCall_unconditional:
  "getState (receiveCall c w) =
     \<lparr>state = Incoming, caller = c, duration = 0, startTime = None\<rparr> \<and>
   durationTimer (receiveCall c w) = durationTimer w \<and>
   timers (receiveCall c w) = timers w \<and>
   notified (receiveCall c w) =
     notified w @ [\<lparr>state = Incoming, caller = c, duration = 0, startTime = None\<rparr>]"
  by (simp add: receiveCall_def notify_def getState_def)

text \<open>A call that arrives during an active call: the interval of the active call stays.\<close>

lemma receiveCall_during_active_call:
  "getState (run [OnIncoming ''+15551234567'', AcceptCall, ReceiveCall (a_caller ''+27672966361'')]
      (CallStore_new 5)) =
     \<lparr>state = Incoming, caller = Some (a_caller ''+27672966361''), duration = 0,
      startTime = None\<rparr> \<and>
   durationTimer (run [OnIncoming ''+15551234567'', AcceptCall,
      ReceiveCall (a_caller ''+27672966361'')] (CallStore_new 5)) = Some 0 \<and>
   timers (run [OnIncoming ''+15551234567'', AcceptCall,
      ReceiveCall (a_caller ''+27672966361'')] (CallStore_new 5)) = [(0, 1005, DurationTickCb)]"
  by (simp add: run_def page_defs store_defs CallStore_new_def)

subsection \<open>Decline and remote cancel while a call is incoming\<close>

lemma onDisconnected_while_incoming: "state w = Incoming \<Longrightarrow> onDisconnected w = w"
  by (simp add: onDisconnected_def endCall_def)

text \<open>
  C7 at a call that is ringing. The listener for the transport's disconnect and
  reject events calls \<open>endCall\<close>, which acts in the phases active and outgoing only:
  in the phase incoming the store is left as it was, phase incoming, and no reset is
  scheduled. Declining the same call does reach the phase ended.
\<close>

theorem remote_cancel_while_incoming_ignored:
  "state (onIncoming ''+15551234567'' (CallStore_new 0)) = Incoming \<and>
   onDisconnected (onIncoming ''+15551234567'' (CallStore_new 0)) =
     onIncoming ''+15551234567'' (CallStore_new 0) \<and>
   state (onDisconnected (onIncoming ''+15551234567'' (CallStore_new 0))) = Incoming \<and>
   timers (onDisconnected (onIncoming ''+15551234567'' (CallStore_new 0))) = [] \<and>
   state (declineCall (onIncoming ''+15551234567'' (CallStore_new 0))) = Ended"
  by (simp add: page_defs store_defs CallStore_new_def)

subsection \<open>Transport errors\<close>

text \<open>
  C9, as the code has it. When the outbound connection attempt fails, the page shows
  an alert and calls \<open>resetCall\<close>: the session goes to the phase idle (caller
  \<^verbatim>\<open>null\<close>, duration 0, no start time), and the listeners are notified of that state.
  An error event of the device or of the connection shows an alert and leaves the
  session and the notifications as they were.
\<close>

theorem dial_failure_resets_error_event_alerts:
  "getState (handleDialCall_catch message w) =
     \<lparr>state = Idle, caller = None, duration = 0, startTime = None\<rparr> \<and>
   notified (handleDialCall_catch message w) =
     notified w @ [\<lparr>state = Idle, caller = None, duration = 0, startTime = None\<rparr>] \<and>
   alerts (handleDialCall_catch message w) = alerts w @ [''Failed to make call: '' @ message] \<and>
   getState (onError message w) = getState w \<and>
   notified (onError message w) = notified w \<and>
   alerts (onError message w) = alerts w @ [''Call error: '' @ message]"
  by (simp add: page_defs store_defs)

text \<open>
  C9 as stated says that every transport error forces the phase ended. After a dial,
  a failed connection leaves the phase idle, and an error event leaves it outgoing,
  with nothing notified.
\<close>

theorem transport_error_not_ended:
  "state (handleDialCall_start True ''067 296 6361'' (CallStore_new 0)) = Outgoing \<and>
   state (handleDialCall_catch ''failed''
            (handleDialCall_start True ''067 296 6361'' (CallStore_new 0))) = Idle \<and>
   state (onError ''failed'' (handleDialCall_start True ''067 296 6361'' (CallStore_new 0))) =
     Outgoing \<and>
   notified (onError ''failed'' (handleDialCall_start True ''067 296 6361'' (CallStore_new 0))) =
     notified (handleDialCall_start True ''067 296 6361'' (CallStore_new 0))"
  by (simp add: page_defs store_defs CallStore_new_def Let_def is_white_space_def)

subsection \<open>Lookups that complete late\<close>

text \<open>
  C5, as the code has it. A lookup that completes is judged by the phase at that
  moment alone. In the phases idle and ended no result is applied: the store is left
  as it was. The result of an incoming call's lookup is applied only in the phase
  incoming, that of a dial's lookup only in the phases outgoing and active, and a
  lookup that found no customer changes nothing. In the accepting phases a customer
  that was found is written to the caller of the session that is current then.
\<close>

theorem lookup_result_checked_by_phase_only:
  "(state w \<in> {Idle, Ended} \<longrightarrow>
      incoming_lookup_done customer w = w \<and> dial_lookup_done customer w = w) \<and>
   (state w \<noteq> Incoming \<longrightarrow> incoming_lookup_done customer w = w) \<and>
   (state w \<notin> {Outgoing, Active} \<longrightarrow> dial_lookup_done customer w = w) \<and>
   incoming_lookup_done None w = w \<and> dial_lookup_done None w = w \<and>
   (\<exists>formattedInfo. formatCustomerInfo (Some c) = Some formattedInfo \<and>
      (state w = Incoming \<longrightarrow>
         incoming_lookup_done (Some c) w = apply_customer formattedInfo w) \<and>
      (state w \<in> {Outgoing, Active} \<longrightarrow>
         dial_lookup_done (Some c) w = apply_customer formattedInfo w))"
  by (auto simp: incoming_lookup_done_def incoming_lookup_then_def dial_lookup_done_def
      dial_lookup_then_def catch_log_def formatCustomerInfo_def)

theorem lookup_result_checked_by_phase_only_witness:
  "state (run [OnIncoming ''+27672966361'', DeclineCall] (CallStore_new 0)) \<in> {Idle, Ended} \<and>
   incoming_lookup_done (Some (a_customer 1 ''+27672966361'' 10))
     (run [OnIncoming ''+27672966361'', DeclineCall] (CallStore_new 0)) =
     run [OnIncoming ''+27672966361'', DeclineCall] (CallStore_new 0) \<and>
   state (run [DialStart True ''067 296 6361'', EndCall] (CallStore_new 0)) \<notin> {Outgoing, Active} \<and>
   dial_lookup_done (Some (a_customer 1 ''+27672966361'' 10))
     (run [DialStart True ''067 296 6361'', EndCall] (CallStore_new 0)) =
     run [DialStart True ''067 296 6361'', EndCall] (CallStore_new 0) \<and>
   state (onIncoming ''+27672966361'' (CallStore_new 0)) = Incoming \<and>
   caller (incoming_lookup_done (Some (a_customer 1 ''+27672966361'' 10))
            (onIncoming ''+27672966361'' (CallStore_new 0))) =
     Some \<lparr>name = Some ''Thandi Nkosi'', number = Some ''+27672966361'',
            line1 = Some ''Discovery'', line2 = Some ''(Classic)'', location = Some []\<rparr>"
proof -
  have a: "state (run [OnIncoming ''+27672966361'', DeclineCall] (CallStore_new 0)) = Ended"
    by (simp add: run_def page_defs store_defs CallStore_new_def)
  have b: "state (run [DialStart True ''067 296 6361'', EndCall] (CallStore_new 0)) = Ended"
    by (simp add: run_def page_defs store_defs CallStore_new_def Let_def
        normalizePhoneNumber_js_def starts_with_def is_white_space_def)
  have c: "state (onIncoming ''+27672966361'' (CallStore_new 0)) = Incoming"
    by (simp add: page_defs store_defs CallStore_new_def)
  have d: "formatCustomerInfo (Some (a_customer 1 ''+27672966361'' 10)) =
     Some \<lparr>info_name = ''Thandi Nkosi'', info_line1 = ''Discovery'',
            info_line2 = ''(Classic)''\<rparr>"
    by (simp add: formatCustomerInfo_def formatDisplayName_def a_customer_def)
  have e: "caller (apply_customer
      \<lparr>info_name = ''Thandi Nkosi'', info_line1 = ''Discovery'', info_line2 = ''(Classic)''\<rparr>
      (onIncoming ''+27672966361'' (CallStore_new 0))) =
     Some \<lparr>name = Some ''Thandi Nkosi'', number = Some ''+27672966361'',
            line1 = Some ''Discovery'', line2 = Some ''(Classic)'', location = Some []\<rparr>"
    by (simp add: apply_customer_def onIncoming_def store_defs CallStore_new_def Let_def)
  show ?thesis
    using a b c d e
      lookup_result_checked_by_phase_only
        [of "run [OnIncoming ''+27672966361'', DeclineCall] (CallStore_new 0)"
            "Some (a_customer 1 ''+27672966361'' 10)" "a_customer 1 ''+27672966361'' 10"]
      lookup_result_checked_by_phase_only
        [of "run [DialStart True ''067 296 6361'', EndCall] (CallStore_new 0)"
            "Some (a_customer 1 ''+27672966361'' 10)" "a_customer 1 ''+27672966361'' 10"]
      lookup_result_checked_by_phase_only
        [of "onIncoming ''+27672966361'' (CallStore_new 0)"
            "Some (a_customer 1 ''+27672966361'' 10)" "a_customer 1 ''+27672966361'' 10"]
    by simp
qed

text \<open>
  What the lookup of a caller's number gives the page: the customer the server finds.
\<close>

lemma lookup_of_first_caller:
  "CustomerService_getCustomerByPhone
     (Some (resolve ''+27111111111''
        [a_customer 2 ''+27 22 222 2222'' 20, a_customer 1 ''+27111111111'' 10])) =
   Some (a_customer 1 ''+27111111111'' 10)"
  by (simp add: CustomerService_getCustomerByPhone_def resolve_def getCustomerByPhone_def
      db_queries_def sql_GetCustomerByPhone_def a_customer_def)

text \<open>
  C5 as stated says that a result is never applied once the session has been replaced
  by a newer one. A second incoming call replaces the first; when the lookup of the
  first call then completes, the phase is incoming, and the name and lines of the
  first call's customer are written to the caller of the second call, whose number
  stays.
\<close>

theorem stale_lookup_applied_to_newer_session:
  "caller (run [OnIncoming ''+27111111111'', OnIncoming ''+27222222222'']
             (CallStore_new 0)) =
     Some \<lparr>name = Some ''+27222222222'', number = Some ''+27222222222'', line1 = None,
            line2 = None, location = Some []\<rparr> \<and>
   caller (run [OnIncoming ''+27111111111'', OnIncoming ''+27222222222'',
                IncomingLookupDone (Some (a_customer 1 ''+27111111111'' 10))]
             (CallStore_new 0)) =
     Some \<lparr>name = Some ''Thandi Nkosi'', number = Some ''+27222222222'',
            line1 = Some ''Discovery'', line2 = Some ''(Classic)'', location = Some []\<rparr>"
  by (simp add: run_def page_defs store_defs CallStore_new_def formatCustomerInfo_def
      formatDisplayName_def a_customer_def Let_def)

subsection \<open>The passing of time\<close>

lemma advance_0: "advance 0 w = w"
  by (simp add: advance_def)

lemma advance_Suc: "advance (Suc n) w = tick (advance n w)"
  by (simp add: advance_def)

lemma advance_Suc_first: "advance (Suc n) w = advance n (tick w)"
  by (simp add: advance_def funpow_swap1)

lemma now_fire: "now (fire t w) = now w"
proof -
  obtain i d cb where t: "t = (i, d, cb)"
    by (cases t) auto
  show ?thesis
    by (cases cb) (simp_all add: t store_defs split: option.splits)
qed

lemma now_fold_fire: "now (fold fire ts w) = now w"
  by (induction ts arbitrary: w) (simp_all add: now_fire)

lemma now_tick: "now (tick w) = now w + 1"
  by (simp add: tick_def fire_due_def now_fold_fire)

lemma now_advance: "now (advance n w) = now w + int n"
  by (induction n) (simp_all add: advance_0 advance_Suc now_tick)

lemma tick_quiet:
  assumes "\<forall>t\<in>set (timers w). now w + 1 < fst (snd t)"
  shows "tick w = w\<lparr>now := now w + 1\<rparr>"
proof -
  have "filter (\<lambda>(i, d, cb). d \<le> now w + 1) (timers w) = []"
    using assms by (auto simp: filter_empty_conv)
  then show ?thesis
    by (simp add: tick_def fire_due_def)
qed

lemma advance_quiet:
  "\<forall>t\<in>set (timers w). now w + int n < fst (snd t) \<Longrightarrow>
   advance n w = w\<lparr>now := now w + int n\<rparr>"
proof (induction n)
  case 0
  show ?case by (simp add: advance_0)
next
  case (Suc n)
  have "\<forall>t\<in>set (timers w). now w + int n < fst (snd t)"
    using Suc.prems by fastforce
  then have prev: "advance n w = w\<lparr>now := now w + int n\<rparr>"
    by (rule Suc.IH)
  have "\<forall>t\<in>set (timers (w\<lparr>now := now w + int n\<rparr>)).
          now (w\<lparr>now := now w + int n\<rparr>) + 1 < fst (snd t)"
    using Suc.prems by auto
  then have "tick (w\<lparr>now := now w + int n\<rparr>) = w\<lparr>now := now w + int n + 1\<rparr>"
    by (simp add: tick_quiet)
  then show ?case
    by (simp add: advance_Suc prev add.commute add.left_commute)
qed

subsection \<open>A pending reset runs when it is due\<close>

lemma idle_cleared_fire: "idle_cleared w \<Longrightarrow> idle_cleared (fire t w)"
proof -
  assume idle: "idle_cleared w"
  obtain i d cb where t: "t = (i, d, cb)"
    by (cases t) auto
  show ?thesis
    using idle by (cases cb) (simp_all add: t idle_cleared_def store_defs)
qed

lemma idle_cleared_fold_fire: "idle_cleared w \<Longrightarrow> idle_cleared (fold fire ts w)"
  by (induction ts arbitrary: w) (simp_all add: idle_cleared_fire)

lemma idle_cleared_fire_reset: "idle_cleared (fire (i, d, ResetCallCb) w)"
  by (simp add: idle_cleared_def store_defs)

lemma reset_in_batch:
  "(i, d, ResetCallCb) \<in> set ts \<Longrightarrow> idle_cleared (fold fire ts w)"
proof (induction ts arbitrary: w)
  case Nil
  then show ?case by simp
next
  case (Cons t ts)
  show ?case
  proof (cases "t = (i, d, ResetCallCb)")
    case True
    have "idle_cleared (fold fire ts (fire (i, d, ResetCallCb) w))"
      by (intro idle_cleared_fold_fire idle_cleared_fire_reset)
    with True show ?thesis
      by simp
  next
    case False
    with Cons show ?thesis by simp
  qed
qed

lemma timers_simulateConnection_cb:
  "r \<in> set (timers w) \<Longrightarrow> r \<in> set (timers (simulateConnection_cb w))"
  by (simp add: store_defs)

lemma timers_resetCall: "timers (resetCall w) = timers w"
  by (simp add: store_defs)

lemma timers_durationTick_cb: "timers (durationTick_cb w) = timers w"
  by (simp add: store_defs split: option.splits)

lemma keep_timer_fire:
  assumes "r \<in> set (timers w)" "t \<noteq> r"
  shows "r \<in> set (timers (fire t w))"
proof -
  obtain i d cb where t: "t = (i, d, cb)"
    by (cases t) auto
  show ?thesis
  proof (cases cb)
    case SimulateConnectionCb
    with t assms show ?thesis
      by (simp add: timers_simulateConnection_cb)
  next
    case ResetCallCb
    with t assms show ?thesis
      by (simp add: timers_resetCall)
  next
    case DurationTickCb
    have "r \<in> (\<lambda>t'. if t' = (i, d, DurationTickCb) then (i, d + 1000, DurationTickCb) else t')
            ` set (timers w)"
      using assms t DurationTickCb by (intro image_eqI [where x = r]) auto
    with t DurationTickCb show ?thesis
      by (simp add: timers_durationTick_cb)
  qed
qed

lemma keep_timer_fold_fire:
  "r \<in> set (timers w) \<Longrightarrow> r \<notin> set ts \<Longrightarrow> r \<in> set (timers (fold fire ts w))"
proof (induction ts arbitrary: w)
  case Nil
  then show ?case by simp
next
  case (Cons t ts)
  have "r \<in> set (timers (fire t w))"
    using Cons.prems by (intro keep_timer_fire) auto
  with Cons show ?case by simp
qed

lemma keep_timer_tick:
  assumes "(i, d, cb) \<in> set (timers w)" "now w + 1 < d"
  shows "(i, d, cb) \<in> set (timers (tick w))"
proof -
  have "(i, d, cb) \<notin> set (filter (\<lambda>(i, d, cb). d \<le> now w + 1) (timers w))"
    using assms(2) by auto
  then show ?thesis
    using assms(1) by (simp add: tick_def fire_due_def keep_timer_fold_fire)
qed

lemma reset_due_now:
  assumes "(i, d, ResetCallCb) \<in> set (timers w)" "d = now w + 1"
  shows "idle_cleared (tick w)"
proof -
  have "(i, d, ResetCallCb) \<in> set (filter (\<lambda>(i, d, cb). d \<le> now w + 1) (timers w))"
    using assms by auto
  then show ?thesis
    by (simp add: tick_def fire_due_def reset_in_batch)
qed

lemma reset_fires:
  "(i, d, ResetCallCb) \<in> set (timers w) \<Longrightarrow> now w + int n = d \<Longrightarrow> 0 < n \<Longrightarrow>
   idle_cleared (advance n w)"
proof (induction n arbitrary: w)
  case 0
  then show ?case by simp
next
  case (Suc n)
  show ?case
  proof (cases "n = 0")
    case True
    with Suc.prems have "idle_cleared (tick w)"
      by (intro reset_due_now [of i d]) auto
    with True show ?thesis
      by (simp add: advance_Suc advance_0)
  next
    case False
    have "(i, d, ResetCallCb) \<in> set (timers (tick w))"
      using Suc.prems False by (intro keep_timer_tick) auto
    moreover have "now (tick w) + int n = d"
      using Suc.prems by (simp add: now_tick)
    ultimately have "idle_cleared (advance n (tick w))"
      using False by (intro Suc.IH) auto
    then show ?thesis
      by (simp add: advance_Suc_first)
  qed
qed

subsection \<open>Until a reset runs, an ended session stays ended\<close>

lemma ended_fire:
  assumes "state w = Ended" "snd (snd t) \<noteq> ResetCallCb"
  shows "state (fire t w) = Ended"
proof -
  obtain i d cb where t: "t = (i, d, cb)"
    by (cases t) auto
  show ?thesis
    using assms by (cases cb) (simp_all add: t store_defs split: option.splits)
qed

lemma resets_fire:
  assumes "r \<in> set (timers (fire t w))" "snd (snd r) = ResetCallCb"
  shows "r \<in> set (timers w)"
proof -
  obtain i d cb where t: "t = (i, d, cb)"
    by (cases t) auto
  show ?thesis
  proof (cases cb)
    case SimulateConnectionCb
    with t assms show ?thesis
      by (auto simp: store_defs split: if_splits)
  next
    case ResetCallCb
    with t assms show ?thesis
      by (auto simp: store_defs)
  next
    case DurationTickCb
    with t assms show ?thesis
      by (auto simp: timers_durationTick_cb split: if_splits)
  qed
qed

lemma ended_fold_fire:
  "state w = Ended \<Longrightarrow> \<forall>t\<in>set ts. snd (snd t) \<noteq> ResetCallCb \<Longrightarrow>
   state (fold fire ts w) = Ended"
  by (induction ts arbitrary: w) (simp_all add: ended_fire)

lemma resets_fold_fire:
  "r \<in> set (timers (fold fire ts w)) \<Longrightarrow> snd (snd r) = ResetCallCb \<Longrightarrow> r \<in> set (timers w)"
proof (induction ts arbitrary: w)
  case Nil
  then show ?case by simp
next
  case (Cons t ts)
  then have "r \<in> set (timers (fire t w))"
    by simp
  then show ?case
    using Cons.prems(2) by (rule resets_fire)
qed

lemma no_reset_due_tick:
  assumes "state w = Ended" "no_reset_due (Suc n) w"
  shows "state (tick w) = Ended \<and> no_reset_due n (tick w)"
proof -
  let ?due = "filter (\<lambda>(i, d, cb). d \<le> now w + 1) (timers w)"
  have none: "\<forall>t\<in>set ?due. snd (snd t) \<noteq> ResetCallCb"
    using assms(2) by (fastforce simp: no_reset_due_def)
  have "state (fold fire ?due (w\<lparr>now := now w + 1\<rparr>)) = Ended"
    using assms(1) none by (intro ended_fold_fire) auto
  then have st: "state (tick w) = Ended"
    by (simp add: tick_def fire_due_def)
  have "no_reset_due n (tick w)"
    unfolding no_reset_due_def
  proof (intro ballI impI)
    fix r
    assume r: "r \<in> set (timers (tick w))" "snd (snd r) = ResetCallCb"
    then have "r \<in> set (timers (w\<lparr>now := now w + 1\<rparr>))"
      unfolding tick_def fire_due_def by (rule resets_fold_fire)
    with r(2) assms(2) have "now w + int (Suc n) < fst (snd r)"
      by (simp add: no_reset_due_def)
    then show "now (tick w) + int n < fst (snd r)"
      by (simp add: now_tick)
  qed
  with st show ?thesis by simp
qed

lemma ended_stays:
  "state w = Ended \<Longrightarrow> no_reset_due n w \<Longrightarrow> state (advance n w) = Ended"
proof (induction n arbitrary: w)
  case 0
  then show ?case by (simp add: advance_0)
next
  case (Suc n)
  then have "state (tick w) = Ended \<and> no_reset_due n (tick w)"
    by (intro no_reset_due_tick)
  then have "state (advance n (tick w)) = Ended"
    using Suc.IH by blast
  then show ?case
    by (simp add: advance_Suc_first)
qed

subsection \<open>Entering the phase ended\<close>

lemma declineCall_ended:
  assumes "state w = Incoming"
  shows "state (declineCall w) = Ended"
    and "now (declineCall w) = now w"
    and "timers (declineCall w) = timers w @ [(next_timer w, now w + 2000, ResetCallCb)]"
  using assms by (simp_all add: store_defs)

lemma endCall_outgoing_ended:
  assumes "state w = Outgoing"
  shows "state (endCall w) = Ended"
    and "now (endCall w) = now w"
    and "timers (endCall w) = timers w @ [(next_timer w, now w + 1000, ResetCallCb)]"
  using assms by (simp_all add: store_defs)

lemma timers_stopDurationTimer: "set (timers (stopDurationTimer w)) \<subseteq> set (timers w)"
  by (auto simp: store_defs split: option.splits)

lemma endCall_active_ended:
  assumes "state w = Active"
  shows "state (endCall w) = Ended"
    and "now (endCall w) = now w"
    and "timers (endCall w) =
           timers (stopDurationTimer w) @
             [(next_timer (stopDurationTimer w), now w + 2000, ResetCallCb)]"
  using assms by (simp_all add: store_defs split: option.splits)

lemma no_reset_due_append:
  assumes "no_reset_due n w" "now w' = now w" "int n < delay"
    and "set (timers w') \<subseteq> set (timers w) \<union> {(i, now w + delay, ResetCallCb)}"
  shows "no_reset_due n w'"
  unfolding no_reset_due_def
proof (intro ballI impI)
  fix r
  assume r: "r \<in> set (timers w')" "snd (snd r) = ResetCallCb"
  show "now w' + int n < fst (snd r)"
  proof (cases "r \<in> set (timers w)")
    case True
    with r(2) assms(1,2) show ?thesis
      by (simp add: no_reset_due_def)
  next
    case False
    with r(1) assms(4) have "r = (i, now w + delay, ResetCallCb)"
      by blast
    with assms(2,3) show ?thesis
      by simp
  qed
qed

lemma not_ended_fire: "state w \<noteq> Ended \<Longrightarrow> state (fire t w) \<noteq> Ended"
proof -
  assume s: "state w \<noteq> Ended"
  obtain i d cb where t: "t = (i, d, cb)"
    by (cases t) auto
  show ?thesis
    using s by (cases cb) (simp_all add: t store_defs split: option.splits)
qed

lemma not_ended_fold_fire: "state w \<noteq> Ended \<Longrightarrow> state (fold fire ts w) \<noteq> Ended"
  by (induction ts arbitrary: w) (simp_all add: not_ended_fire)

lemma not_ended_tick: "state w \<noteq> Ended \<Longrightarrow> state (tick w) \<noteq> Ended"
  by (simp add: tick_def fire_due_def not_ended_fold_fire)

lemma not_ended_advance: "state w \<noteq> Ended \<Longrightarrow> state (advance n w) \<noteq> Ended"
  by (induction n) (simp_all add: advance_0 advance_Suc not_ended_tick)

lemma ended_entered_only_by:
  assumes "state w \<noteq> Ended" "state (apply_event ev w) = Ended"
  shows "(ev = DeclineCall \<and> state w = Incoming) \<or>
         ((ev = EndCall \<or> ev = OnDisconnected) \<and> (state w = Active \<or> state w = Outgoing))"
proof (cases ev)
  case (Elapse n)
  with assms not_ended_advance [of w n] show ?thesis
    by simp
qed (use assms in \<open>auto simp: store_defs page_defs Let_def split: option.splits if_splits\<close>)

text \<open>
  C8, as the code has it. The phase ended is entered by \<open>declineCall\<close> from incoming,
  by \<open>endCall\<close> from active, and by \<open>endCall\<close> from outgoing, and in no other way; the
  transport's disconnect and reject events call \<open>endCall\<close> too. On entering it a reset
  is scheduled after a fixed delay that goes by the phase left: 1000 ms from outgoing
  (a cancel by the user and a disconnect by the remote party alike), 2000 ms from
  incoming and from active. With only time passing afterwards, the session is idle
  with caller \<^verbatim>\<open>null\<close>, duration 0 and start time \<^verbatim>\<open>null\<close> once that delay has
  passed, and it stays ended for the whole delay when no reset scheduled by an earlier
  call comes due before.
\<close>

theorem ended_reset_after_delay_by_phase:
  "(state w = Incoming \<longrightarrow>
      state (declineCall w) = Ended \<and>
      timers (declineCall w) = timers w @ [(next_timer w, now w + 2000, ResetCallCb)] \<and>
      idle_cleared (advance 2000 (declineCall w)) \<and>
      (\<forall>n<2000. no_reset_due n w \<longrightarrow> state (advance n (declineCall w)) = Ended)) \<and>
   (state w = Active \<longrightarrow>
      state (endCall w) = Ended \<and>
      timers (endCall w) =
        timers (stopDurationTimer w) @
          [(next_timer (stopDurationTimer w), now w + 2000, ResetCallCb)] \<and>
      idle_cleared (advance 2000 (endCall w)) \<and>
      (\<forall>n<2000. no_reset_due n w \<longrightarrow> state (advance n (endCall w)) = Ended)) \<and>
   (state w = Outgoing \<longrightarrow>
      state (endCall w) = Ended \<and>
      timers (endCall w) = timers w @ [(next_timer w, now w + 1000, ResetCallCb)] \<and>
      idle_cleared (advance 1000 (endCall w)) \<and>
      (\<forall>n<1000. no_reset_due n w \<longrightarrow> state (advance n (endCall w)) = Ended)) \<and>
   onDisconnected w = endCall w \<and>
   (\<forall>ev. state w \<noteq> Ended \<and> state (apply_event ev w) = Ended \<longrightarrow>
      (ev = DeclineCall \<and> state w = Incoming) \<or>
      ((ev = EndCall \<or> ev = OnDisconnected) \<and> (state w = Active \<or> state w = Outgoing)))"
proof (intro conjI impI allI)
  fix ev
  assume "state w \<noteq> Ended \<and> state (apply_event ev w) = Ended"
  then show "(ev = DeclineCall \<and> state w = Incoming) \<or>
      ((ev = EndCall \<or> ev = OnDisconnected) \<and> (state w = Active \<or> state w = Outgoing))"
    using ended_entered_only_by [of w ev] by blast
next
  show "onDisconnected w = endCall w"
    by (simp add: onDisconnected_def)
next
  assume s: "state w = Incoming"
  show "state (declineCall w) = Ended"
    by (rule declineCall_ended(1) [OF s])
  show "timers (declineCall w) = timers w @ [(next_timer w, now w + 2000, ResetCallCb)]"
    by (rule declineCall_ended(3) [OF s])
  show "idle_cleared (advance 2000 (declineCall w))"
    by (rule reset_fires [of "next_timer w" "now w + 2000"])
      (simp_all add: declineCall_ended [OF s])
next
  fix n :: nat
  assume s: "state w = Incoming" and n: "n < 2000" and q: "no_reset_due n w"
  have "no_reset_due n (declineCall w)"
    using q by (rule no_reset_due_append [where delay = 2000 and i = "next_timer w"])
      (use n in \<open>auto simp: declineCall_ended [OF s]\<close>)
  then show "state (advance n (declineCall w)) = Ended"
    by (intro ended_stays declineCall_ended(1) [OF s])
next
  assume s: "state w = Active"
  show "state (endCall w) = Ended"
    by (rule endCall_active_ended(1) [OF s])
  show "timers (endCall w) =
        timers (stopDurationTimer w) @
          [(next_timer (stopDurationTimer w), now w + 2000, ResetCallCb)]"
    by (rule endCall_active_ended(3) [OF s])
  show "idle_cleared (advance 2000 (endCall w))"
    by (rule reset_fires [of "next_timer (stopDurationTimer w)" "now w + 2000"])
      (simp_all add: endCall_active_ended [OF s])
next
  fix n :: nat
  assume s: "state w = Active" and n: "n < 2000" and q: "no_reset_due n w"
  have "no_reset_due n (endCall w)"
    using q
    by (rule no_reset_due_append
          [where delay = 2000 and i = "next_timer (stopDurationTimer w)"])
      (use n timers_stopDurationTimer [of w] in \<open>auto simp: endCall_active_ended [OF s]\<close>)
  then show "state (advance n (endCall w)) = Ended"
    by (intro ended_stays endCall_active_ended(1) [OF s])
next
  assume s: "state w = Outgoing"
  show "state (endCall w) = Ended"
    by (rule endCall_outgoing_ended(1) [OF s])
  show "timers (endCall w) = timers w @ [(next_timer w, now w + 1000, ResetCallCb)]"
    by (rule endCall_outgoing_ended(3) [OF s])
  show "idle_cleared (advance 1000 (endCall w))"
    by (rule reset_fires [of "next_timer w" "now w + 1000"])
      (simp_all add: endCall_outgoing_ended [OF s])
next
  fix n :: nat
  assume s: "state w = Outgoing" and n: "n < 1000" and q: "no_reset_due n w"
  have "no_reset_due n (endCall w)"
    using q by (rule no_reset_due_append [where delay = 1000 and i = "next_timer w"])
      (use n in \<open>auto simp: endCall_outgoing_ended [OF s]\<close>)
  then show "state (advance n (endCall w)) = Ended"
    by (intro ended_stays endCall_outgoing_ended(1) [OF s])
qed

theorem ended_reset_after_delay_by_phase_witness:
  "state (onIncoming ''+15551234567'' (CallStore_new 0)) = Incoming \<and>
   no_reset_due 1999 (onIncoming ''+15551234567'' (CallStore_new 0)) \<and>
   state (advance 1999 (declineCall (onIncoming ''+15551234567'' (CallStore_new 0)))) = Ended \<and>
   idle_cleared (advance 2000 (declineCall (onIncoming ''+15551234567'' (CallStore_new 0)))) \<and>
   state (acceptCall (onIncoming ''+15551234567'' (CallStore_new 0))) = Active \<and>
   no_reset_due 1999 (acceptCall (onIncoming ''+15551234567'' (CallStore_new 0))) \<and>
   state (advance 1999 (endCall (acceptCall (onIncoming ''+15551234567'' (CallStore_new 0))))) =
     Ended \<and>
   idle_cleared
     (advance 2000 (endCall (acceptCall (onIncoming ''+15551234567'' (CallStore_new 0))))) \<and>
   state (initiateCall ''+27672966361'' None (CallStore_new 0)) = Outgoing \<and>
   no_reset_due 999 (initiateCall ''+27672966361'' None (CallStore_new 0)) \<and>
   state (advance 999 (endCall (initiateCall ''+27672966361'' None (CallStore_new 0)))) = Ended \<and>
   idle_cleared (advance 1000 (endCall (initiateCall ''+27672966361'' None (CallStore_new 0))))"
proof -
  have a: "state (onIncoming ''+15551234567'' (CallStore_new 0)) = Incoming"
    by (simp add: page_defs store_defs CallStore_new_def)
  have a': "no_reset_due 1999 (onIncoming ''+15551234567'' (CallStore_new 0))"
    by (simp add: no_reset_due_def page_defs store_defs CallStore_new_def)
  have b: "state (acceptCall (onIncoming ''+15551234567'' (CallStore_new 0))) = Active"
    by (simp add: page_defs store_defs CallStore_new_def)
  have b': "no_reset_due 1999 (acceptCall (onIncoming ''+15551234567'' (CallStore_new 0)))"
    by (simp add: no_reset_due_def page_defs store_defs CallStore_new_def)
  have c: "state (initiateCall ''+27672966361'' None (CallStore_new 0)) = Outgoing"
    by (simp add: store_defs CallStore_new_def Let_def)
  have c': "no_reset_due 999 (initiateCall ''+27672966361'' None (CallStore_new 0))"
    by (simp add: no_reset_due_def store_defs CallStore_new_def Let_def)
  have n: "(1999::nat) < 2000" "(999::nat) < 1000"
    by simp_all
  show ?thesis
    using a a' b b' c c' n
      ended_reset_after_delay_by_phase
        [of "onIncoming ''+15551234567'' (CallStore_new 0)"]
      ended_reset_after_delay_by_phase
        [of "acceptCall (onIncoming ''+15551234567'' (CallStore_new 0))"]
      ended_reset_after_delay_by_phase
        [of "initiateCall ''+27672966361'' None (CallStore_new 0)"]
    by blast
qed

lemma initiateCall_outgoing:
  "state (initiateCall num info w) = Outgoing"
  "now (initiateCall num info w) = now w"
  "timers (initiateCall num info w) =
     timers w @ [(next_timer w, now w + 2000, SimulateConnectionCb)]"
  by (simp_all add: store_defs Let_def)

text \<open>
  A dial that is cancelled at once, an incoming call 500 ms later, declined at once:
  the reset scheduled by the cancelled dial is still pending.
\<close>

lemma cancelled_dial:
  "state (endCall (initiateCall num info (CallStore_new 0))) = Ended"
  "now (endCall (initiateCall num info (CallStore_new 0))) = 0"
  "timers (endCall (initiateCall num info (CallStore_new 0))) =
     [(0, 2000, SimulateConnectionCb), (1, 1000, ResetCallCb)]"
  "next_timer (endCall (initiateCall num info (CallStore_new 0))) = 2"
  by (simp_all add: store_defs CallStore_new_def Let_def)

lemma cancelled_dial_wait:
  "advance 500 (endCall (initiateCall num info (CallStore_new 0))) =
     (endCall (initiateCall num info (CallStore_new 0)))\<lparr>now := 500\<rparr>"
proof -
  have "\<forall>t\<in>set (timers (endCall (initiateCall num info (CallStore_new 0)))).
          now (endCall (initiateCall num info (CallStore_new 0))) + int 500 < fst (snd t)"
    by (simp add: cancelled_dial)
  then have "advance 500 (endCall (initiateCall num info (CallStore_new 0))) =
      (endCall (initiateCall num info (CallStore_new 0)))
        \<lparr>now := now (endCall (initiateCall num info (CallStore_new 0))) + int 500\<rparr>"
    by (rule advance_quiet)
  then show ?thesis
    by (simp add: cancelled_dial)
qed

lemma declined_after_cancelled_dial:
  "state (declineCall (run [InitiateCall num info, EndCall, Elapse 500, OnIncoming from]
      (CallStore_new 0))) = Ended"
  "now (declineCall (run [InitiateCall num info, EndCall, Elapse 500, OnIncoming from]
      (CallStore_new 0))) = 500"
  "timers (declineCall (run [InitiateCall num info, EndCall, Elapse 500, OnIncoming from]
      (CallStore_new 0))) =
     [(0, 2000, SimulateConnectionCb), (1, 1000, ResetCallCb), (2, 2500, ResetCallCb)]"
  by (simp_all add: run_def cancelled_dial_wait cancelled_dial onIncoming_def receiveCall_def
      notify_def getState_def declineCall_def set_timer_def)

lemma declined_after_cancelled_dial_wait:
  "advance 499 (declineCall (run [InitiateCall num info, EndCall, Elapse 500, OnIncoming from]
      (CallStore_new 0))) =
   (declineCall (run [InitiateCall num info, EndCall, Elapse 500, OnIncoming from]
      (CallStore_new 0)))\<lparr>now := 999\<rparr>"
proof -
  let ?d = "declineCall (run [InitiateCall num info, EndCall, Elapse 500, OnIncoming from]
      (CallStore_new 0))"
  have "\<forall>t\<in>set (timers ?d). now ?d + int 499 < fst (snd t)"
    by (simp add: declined_after_cancelled_dial)
  then have "advance 499 ?d = ?d\<lparr>now := now ?d + int 499\<rparr>"
    by (rule advance_quiet)
  then show ?thesis
    by (simp add: declined_after_cancelled_dial)
qed

lemma declined_after_cancelled_dial_reset:
  "state (advance 500 (declineCall
      (run [InitiateCall num info, EndCall, Elapse 500, OnIncoming from] (CallStore_new 0)))) =
   Idle"
proof -
  let ?d = "declineCall (run [InitiateCall num info, EndCall, Elapse 500, OnIncoming from]
      (CallStore_new 0))"
  have "advance (Suc 499) ?d = tick (?d\<lparr>now := 999\<rparr>)"
    unfolding advance_Suc by (simp add: declined_after_cancelled_dial_wait)
  then have "advance 500 ?d = tick (?d\<lparr>now := 999\<rparr>)"
    by simp
  then show ?thesis
    by (simp add: tick_def fire_due_def declined_after_cancelled_dial resetCall_def notify_def)
qed

text \<open>
  C8 as stated says that the delay is 1 second when an outgoing call was cancelled and
  2 seconds in every other case, and that the session returns to idle after that fixed
  delay. When the remote party disconnects an outgoing call, which is no cancel, the
  session is idle 1000 ms later. And in the run above the declined call is ended, is
  still ended 499 ms later, and is idle 500 ms after it was declined, not 2000 ms.
\<close>

theorem grace_delay_cut_short_or_by_phase:
  "state (onDisconnected (initiateCall ''+27672966361'' None (CallStore_new 0))) = Ended \<and>
   state (advance 1000 (onDisconnected (initiateCall ''+27672966361'' None (CallStore_new 0)))) =
     Idle \<and>
   state (declineCall
      (run [InitiateCall ''+27672966361'' None, EndCall, Elapse 500, OnIncoming ''+15551234567'']
         (CallStore_new 0))) = Ended \<and>
   state (advance 499 (declineCall
      (run [InitiateCall ''+27672966361'' None, EndCall, Elapse 500, OnIncoming ''+15551234567'']
         (CallStore_new 0)))) = Ended \<and>
   state (advance 500 (declineCall
      (run [InitiateCall ''+27672966361'' None, EndCall, Elapse 500, OnIncoming ''+15551234567'']
         (CallStore_new 0)))) = Idle"
proof -
  have out: "state (initiateCall ''+27672966361'' None (CallStore_new 0)) = Outgoing"
    by (rule initiateCall_outgoing)
  have "idle_cleared (advance 1000 (endCall (initiateCall ''+27672966361'' None (CallStore_new 0))))"
    by (rule reset_fires [of "next_timer (initiateCall ''+27672966361'' None (CallStore_new 0))"
          "now (initiateCall ''+27672966361'' None (CallStore_new 0)) + 1000"])
      (simp_all add: endCall_outgoing_ended [OF out])
  then have a: "state (advance 1000
      (onDisconnected (initiateCall ''+27672966361'' None (CallStore_new 0)))) = Idle"
    by (simp add: onDisconnected_def idle_cleared_def)
  have b: "state (onDisconnected (initiateCall ''+27672966361'' None (CallStore_new 0))) = Ended"
    by (simp add: onDisconnected_def endCall_outgoing_ended [OF out])
  show ?thesis
    using a b
    by (simp add: declined_after_cancelled_dial declined_after_cancelled_dial_wait
        declined_after_cancelled_dial_reset)
qed

subsection \<open>From outgoing to active\<close>

lemma fresh_dial_waits:
  assumes "n < 2000"
  shows "advance n (initiateCall num info (CallStore_new t0)) =
           (initiateCall num info (CallStore_new t0))\<lparr>now := t0 + int n\<rparr>"
proof -
  have "\<forall>t\<in>set (timers (initiateCall num info (CallStore_new t0))).
          now (initiateCall num info (CallStore_new t0)) + int n < fst (snd t)"
    using assms by (simp add: initiateCall_outgoing CallStore_new_def)
  then have "advance n (initiateCall num info (CallStore_new t0)) =
      (initiateCall num info (CallStore_new t0))
        \<lparr>now := now (initiateCall num info (CallStore_new t0)) + int n\<rparr>"
    by (rule advance_quiet)
  then show ?thesis
    by (simp add: initiateCall_outgoing CallStore_new_def)
qed

lemma fresh_dial_connects:
  "state (advance 2000 (initiateCall num info (CallStore_new t0))) = Active"
  "startTime (advance 2000 (initiateCall num info (CallStore_new t0))) = Some (t0 + 2000)"
  "durationTimer (advance 2000 (initiateCall num info (CallStore_new t0))) = Some 1"
  "timers (advance 2000 (initiateCall num info (CallStore_new t0))) =
     [(1, t0 + 3000, DurationTickCb)]"
proof -
  have "advance (Suc 1999) (initiateCall num info (CallStore_new t0)) =
          tick ((initiateCall num info (CallStore_new t0))\<lparr>now := t0 + 1999\<rparr>)"
    unfolding advance_Suc by (simp add: fresh_dial_waits)
  then have eq: "advance 2000 (initiateCall num info (CallStore_new t0)) =
          tick ((initiateCall num info (CallStore_new t0))\<lparr>now := t0 + 1999\<rparr>)"
    by simp
  show "state (advance 2000 (initiateCall num info (CallStore_new t0))) = Active"
    unfolding eq by (simp add: tick_def fire_due_def store_defs CallStore_new_def Let_def)
  show "startTime (advance 2000 (initiateCall num info (CallStore_new t0))) = Some (t0 + 2000)"
    unfolding eq by (simp add: tick_def fire_due_def store_defs CallStore_new_def Let_def)
  show "durationTimer (advance 2000 (initiateCall num info (CallStore_new t0))) = Some 1"
    unfolding eq by (simp add: tick_def fire_due_def store_defs CallStore_new_def Let_def)
  show "timers (advance 2000 (initiateCall num info (CallStore_new t0))) =
     [(1, t0 + 3000, DurationTickCb)]"
    unfolding eq by (simp add: tick_def fire_due_def store_defs CallStore_new_def Let_def)
qed

lemma outgoing_only_time_activates:
  assumes "state w = Outgoing" "state (apply_event ev w) = Active"
  shows "\<exists>n. ev = Elapse n"
  using assms
  by (cases ev)
    (auto simp: store_defs page_defs Let_def split: option.splits if_splits)

text \<open>
  C6, as the code has it. \<open>initiateCall\<close> enters the phase outgoing and sets a timeout
  of 2000 ms (the simulated connection). When that timeout runs in the phase outgoing,
  the session becomes active, records the start time as the time then, and starts the
  duration interval. The transport's report that the remote party answered
  (\<open>onConnected\<close>) leaves the store as it was, and from the phase outgoing no event
  other than the passing of time leads to the phase active. On a fresh store the phase
  is outgoing for the first 1999 ms after \<open>initiateCall\<close> and active, with the start
  time recorded, at 2000 ms.
\<close>

theorem outgoing_to_active_by_connection_timer:
  "(state w = Outgoing \<longrightarrow>
      onConnected w = w \<and>
      state (simulateConnection_cb w) = Active \<and>
      startTime (simulateConnection_cb w) = Some (now w) \<and>
      durationTimer (simulateConnection_cb w) = Some (next_timer w) \<and>
      timers (simulateConnection_cb w) =
        timers w @ [(next_timer w, now w + 1000, DurationTickCb)] \<and>
      (\<forall>ev. state (apply_event ev w) = Active \<longrightarrow> (\<exists>n. ev = Elapse n))) \<and>
   state (initiateCall num info w) = Outgoing \<and>
   timers (initiateCall num info w) =
     timers w @ [(next_timer w, now w + 2000, SimulateConnectionCb)] \<and>
   (\<forall>n<2000. state (advance n (initiateCall num info (CallStore_new t0))) = Outgoing) \<and>
   state (advance 2000 (initiateCall num info (CallStore_new t0))) = Active \<and>
   startTime (advance 2000 (initiateCall num info (CallStore_new t0))) = Some (t0 + 2000) \<and>
   timers (advance 2000 (initiateCall num info (CallStore_new t0))) =
     [(1, t0 + 3000, DurationTickCb)]"
proof (intro conjI impI allI)
  assume s: "state w = Outgoing"
  show "onConnected w = w"
    by (simp add: onConnected_def)
  show "state (simulateConnection_cb w) = Active"
    using s by (simp add: store_defs)
  show "startTime (simulateConnection_cb w) = Some (now w)"
    using s by (simp add: store_defs)
  show "durationTimer (simulateConnection_cb w) = Some (next_timer w)"
    using s by (simp add: store_defs)
  show "timers (simulateConnection_cb w) =
        timers w @ [(next_timer w, now w + 1000, DurationTickCb)]"
    using s by (simp add: store_defs)
next
  fix ev
  assume "state w = Outgoing" "state (apply_event ev w) = Active"
  then show "\<exists>n. ev = Elapse n"
    by (rule outgoing_only_time_activates)
next
  show "state (initiateCall num info w) = Outgoing"
    by (rule initiateCall_outgoing)
  show "timers (initiateCall num info w) =
     timers w @ [(next_timer w, now w + 2000, SimulateConnectionCb)]"
    by (rule initiateCall_outgoing)
next
  fix n :: nat
  assume "n < 2000"
  then show "state (advance n (initiateCall num info (CallStore_new t0))) = Outgoing"
    by (simp add: fresh_dial_waits initiateCall_outgoing)
next
  show "state (advance 2000 (initiateCall num info (CallStore_new t0))) = Active"
    by (rule fresh_dial_connects)
  show "startTime (advance 2000 (initiateCall num info (CallStore_new t0))) = Some (t0 + 2000)"
    by (rule fresh_dial_connects)
  show "timers (advance 2000 (initiateCall num info (CallStore_new t0))) =
     [(1, t0 + 3000, DurationTickCb)]"
    by (rule fresh_dial_connects)
qed

theorem outgoing_to_active_by_connection_timer_witness:
  "state (initiateCall ''+27672966361'' None (CallStore_new 0)) = Outgoing \<and>
   onConnected (initiateCall ''+27672966361'' None (CallStore_new 0)) =
     initiateCall ''+27672966361'' None (CallStore_new 0) \<and>
   state (simulateConnection_cb (initiateCall ''+27672966361'' None (CallStore_new 0))) =
     Active \<and>
   state (advance 1999 (initiateCall ''+27672966361'' None (CallStore_new 0))) = Outgoing \<and>
   state (advance 2000 (initiateCall ''+27672966361'' None (CallStore_new 0))) = Active \<and>
   startTime (advance 2000 (initiateCall ''+27672966361'' None (CallStore_new 0))) = Some 2000"
proof -
  have s: "state (initiateCall ''+27672966361'' None (CallStore_new 0)) = Outgoing"
    by (simp add: store_defs CallStore_new_def Let_def)
  have n: "(1999::nat) < 2000"
    by simp
  show ?thesis
    using s n
      outgoing_to_active_by_connection_timer
        [of "initiateCall ''+27672966361'' None (CallStore_new 0)" "''+27672966361''" None 0]
    by simp
qed

text \<open>
  C6 as stated says that the session becomes active exactly when the remote party
  answers. After a dial, the answer leaves the phase outgoing, and 2000 ms later the
  phase is active without any answer.
\<close>

theorem outgoing_active_without_answer:
  "state (onConnected (initiateCall ''+27672966361'' None (CallStore_new 0))) = Outgoing \<and>
   state (advance 2000 (initiateCall ''+27672966361'' None (CallStore_new 0))) = Active"
  by (simp add: onConnected_def initiateCall_outgoing fresh_dial_connects)

end
